theory Spec2Isabelle
  imports Complex_Main
begin

section \<open>Number model\<close>

text \<open>
  The TypeScript type \<open>number\<close> is modelled by \<^typ>\<open>real\<close> with exact arithmetic:
  \<open>Math.sin\<close>, \<open>Math.cos\<close>, \<open>Math.sqrt\<close> are \<^const>\<open>sin\<close>, \<^const>\<open>cos\<close>, \<^const>\<open>sqrt\<close>, and
  \<open>Math.acos\<close> is \<^const>\<open>arccos\<close> in the converters. Rounding, underflow, overflow and
  signed zeros of IEEE doubles are not modelled; an equality of the model is the statement
  that the program's result has distance zero from the stated value before rounding.
  Every division of the source is guarded in the model as in the source, or has a divisor
  that is proved non-zero, so that HOL's \<open>x / 0 = 0\<close> is never used.
\<close>

text \<open>
  \<open>Math.atan2(v, u)\<close>: the angle in \<open>(-\<pi>, \<pi>]\<close> of the point \<open>(u, v)\<close>, with
  \<open>Math.atan2(0, 0) = 0\<close> and \<open>Math.atan2(0, u) = \<pi>\<close> for negative \<open>u\<close> (every zero taken
  as \<open>+0\<close>). The program meets a negative zero only where \<open>sin(theta) = 0\<close>, that is at a
  pole; no statement below says which azimuth is returned for a pole.
\<close>

definition atan2 :: "real \<Rightarrow> real \<Rightarrow> real" where
  "atan2 v u =
     (if 0 < u then arctan (v / u)
      else if u < 0 then (if 0 \<le> v then arctan (v / u) + pi else arctan (v / u) - pi)
      else if 0 < v then pi / 2
      else if v < 0 then - (pi / 2)
      else 0)"

text \<open>
  \<open>Math.PI\<close> is the double \<open>884279719003555 / 2\<^sup>4\<^sup>8\<close>. It lies below \<open>\<pi>\<close> by
  \<open>1.2246467991473532e-16\<close> (to 17 digits), and \<open>MathPI\<close> is \<open>\<pi>\<close> minus that number.
  The difference is rounding noise wherever an angle is added or returned, and there the
  model writes \<open>\<pi>\<close>. It decides the outcome in one place, the angle \<open>omega\<close> of \<open>slerp\<close>,
  whose sine is a divisor: \<open>Math.acos\<close> returns doubles, the largest of them
  \<open>Math.acos(-1) = Math.PI\<close>, and \<open>Math.sin(Math.PI)\<close> is \<open>1.2246467991473532e-16\<close>, not 0.
  For \<open>omega\<close> the model keeps that bound (\<open>Math_acos\<close>).
\<close>

definition MathPI :: real where
  "MathPI = pi - 12246467991473532 / 10 ^ 32"

definition Math_acos :: "real \<Rightarrow> real" where
  "Math_acos v = min (arccos v) MathPI"

section \<open>Data model (src/types/index.ts)\<close>

text \<open>
  Interface \<open>Complex\<close> with fields \<open>real\<close> and \<open>imag\<close>; the names carry a suffix
  because \<open>Complex\<close> and \<open>real\<close> are constants of the library.
\<close>

record ComplexNum =
  real_c :: real
  imag_c :: real

record ComplexAmplitude =
  alpha :: ComplexNum
  beta :: ComplexNum

record SphericalCoordinates =
  theta :: real
  phi :: real

record CartesianCoordinates =
  x :: real
  y :: real
  z :: real

text \<open>
  \<open>EasingFunction = 'linear' | 'easeInOut' | 'easeIn' | 'easeOut'\<close>; the constructors are
  capitalised because \<open>linear\<close> is a constant of the library.
\<close>

datatype EasingFunction = Linear | EaseInOut | EaseIn | EaseOut

text \<open>Optional fields (\<open>enabled?: boolean\<close>) are options; \<open>None\<close> is \<open>undefined\<close>.\<close>

record AnimationConfig =
  enabled :: "bool option"
  duration :: "real option"
  easing :: "EasingFunction option"

section \<open>Coordinate converters (src/utils/quantum-math.ts)\<close>

text \<open>The loop \<^verbatim>\<open>while (phi < 0) phi += 2 * Math.PI\<close>.\<close>

function whileNegative :: "real \<Rightarrow> real" where
  "whileNegative p = (if p < 0 then whileNegative (p + 2 * pi) else p)"
  by pat_completeness auto
termination
proof (relation "measure (\<lambda>p. nat \<lceil>- (p / (2 * pi))\<rceil>)")
  show "wf (measure (\<lambda>p. nat \<lceil>- (p / (2 * pi))\<rceil>))" by simp
next
  fix p :: real
  assume neg: "p < 0"
  have eq: "- ((p + 2 * pi) / (2 * pi)) = - (p / (2 * pi)) - 1"
    by (simp add: field_simps)
  have pos: "0 < - (p / (2 * pi))"
    using neg pi_gt_zero by (simp add: field_simps)
  have "\<lceil>- ((p + 2 * pi) / (2 * pi))\<rceil> = \<lceil>- (p / (2 * pi))\<rceil> - 1"
    unfolding eq by (rule ceiling_diff_one)
  moreover have "0 < \<lceil>- (p / (2 * pi))\<rceil>"
    using pos by linarith
  ultimately have "nat \<lceil>- ((p + 2 * pi) / (2 * pi))\<rceil> < nat \<lceil>- (p / (2 * pi))\<rceil>"
    by linarith
  then show "(p + 2 * pi, p) \<in> measure (\<lambda>p. nat \<lceil>- (p / (2 * pi))\<rceil>)"
    unfolding in_measure .
qed

declare whileNegative.simps [simp del]

text \<open>The loop \<^verbatim>\<open>while (phi >= 2 * Math.PI) phi -= 2 * Math.PI\<close>.\<close>

function whileAtLeast2Pi :: "real \<Rightarrow> real" where
  "whileAtLeast2Pi p = (if 2 * pi \<le> p then whileAtLeast2Pi (p - 2 * pi) else p)"
  by pat_completeness auto
termination
proof (relation "measure (\<lambda>p. nat \<lfloor>p / (2 * pi)\<rfloor>)")
  show "wf (measure (\<lambda>p. nat \<lfloor>p / (2 * pi)\<rfloor>))" by simp
next
  fix p :: real
  assume big: "2 * pi \<le> p"
  have eq: "(p - 2 * pi) / (2 * pi) = p / (2 * pi) - 1"
    by (simp add: field_simps)
  have ge: "1 \<le> p / (2 * pi)"
    using big pi_gt_zero by (simp add: field_simps)
  have "\<lfloor>(p - 2 * pi) / (2 * pi)\<rfloor> = \<lfloor>p / (2 * pi)\<rfloor> - 1"
    unfolding eq by (rule floor_diff_one)
  moreover have "1 \<le> \<lfloor>p / (2 * pi)\<rfloor>"
    using ge by linarith
  ultimately have "nat \<lfloor>(p - 2 * pi) / (2 * pi)\<rfloor> < nat \<lfloor>p / (2 * pi)\<rfloor>"
    by linarith
  then show "(p - 2 * pi, p) \<in> measure (\<lambda>p. nat \<lfloor>p / (2 * pi)\<rfloor>)"
    unfolding in_measure .
qed

declare whileAtLeast2Pi.simps [simp del]

definition amplitudesToSpherical :: "ComplexAmplitude \<Rightarrow> SphericalCoordinates" where
  "amplitudesToSpherical amp =
     (let alphaMag = sqrt ((real_c (alpha amp))\<^sup>2 + (imag_c (alpha amp))\<^sup>2);
          betaMag = sqrt ((real_c (beta amp))\<^sup>2 + (imag_c (beta amp))\<^sup>2);
          norm = sqrt (alphaMag\<^sup>2 + betaMag\<^sup>2)
      in if norm = 0 then \<lparr>theta = 0, phi = 0\<rparr>
         else
           let normAlphaMag = alphaMag / norm;
               theta = 2 * arccos (min 1 (max 0 normAlphaMag));
               alphaPhase = atan2 (imag_c (alpha amp)) (real_c (alpha amp));
               betaPhase = atan2 (imag_c (beta amp)) (real_c (beta amp));
               phi = betaPhase - alphaPhase
           in \<lparr>theta = theta, phi = whileAtLeast2Pi (whileNegative phi)\<rparr>)"

definition sphericalToAmplitudes :: "SphericalCoordinates \<Rightarrow> ComplexAmplitude" where
  "sphericalToAmplitudes coords =
     (let cosHalfTheta = cos (theta coords / 2);
          sinHalfTheta = sin (theta coords / 2)
      in \<lparr>alpha = \<lparr>real_c = cosHalfTheta, imag_c = 0\<rparr>,
          beta = \<lparr>real_c = sinHalfTheta * cos (phi coords),
                  imag_c = sinHalfTheta * sin (phi coords)\<rparr>\<rparr>)"

definition sphericalToCartesian :: "SphericalCoordinates \<Rightarrow> CartesianCoordinates" where
  "sphericalToCartesian coords =
     \<lparr>x = sin (theta coords) * cos (phi coords),
      y = sin (theta coords) * sin (phi coords),
      z = cos (theta coords)\<rparr>"

definition cartesianToSpherical :: "CartesianCoordinates \<Rightarrow> SphericalCoordinates" where
  "cartesianToSpherical cart =
     (let r = sqrt ((x cart)\<^sup>2 + (y cart)\<^sup>2 + (z cart)\<^sup>2)
      in if r = 0 then \<lparr>theta = 0, phi = 0\<rparr>
         else \<lparr>theta = arccos (min 1 (max (- 1) (z cart / r))),
               phi = whileNegative (atan2 (y cart) (x cart))\<rparr>)"



text \<open>
  The local constants \<open>dot\<close> and \<open>omega\<close> of \<open>slerp\<close>, as functions of the two points,
  so that statements can refer to them.
\<close>

definition slerpDot :: "SphericalCoordinates \<Rightarrow> SphericalCoordinates \<Rightarrow> real" where
  "slerpDot start endp =
     (let startCart = sphericalToCartesian start;
          endCart = sphericalToCartesian endp
      in x startCart * x endCart + y startCart * y endCart + z startCart * z endCart)"

definition slerpOmega :: "SphericalCoordinates \<Rightarrow> SphericalCoordinates \<Rightarrow> real" where
  "slerpOmega start endp = Math_acos (max (- 1) (min 1 (slerpDot start endp)))"

text \<open>
  \<open>slerp(start, end, t)\<close>. In the great-circle branch \<open>omega\<close> lies between \<open>0.0001\<close> and
  \<open>Math.PI\<close>, so \<open>sinOmega\<close> is positive (lemma \<open>slerp_sin_pos\<close>).
\<close>

definition slerp ::
  "SphericalCoordinates \<Rightarrow> SphericalCoordinates \<Rightarrow> real \<Rightarrow> SphericalCoordinates" where
  "slerp start endp t =
     (let startCart = sphericalToCartesian start;
          endCart = sphericalToCartesian endp;
          omega = slerpOmega start endp
      in if \<bar>omega\<bar> < 0.0001
         then \<lparr>theta = theta start + t * (theta endp - theta start),
                phi = phi start + t * (phi endp - phi start)\<rparr>
         else
           let sinOmega = sin omega;
               a = sin ((1 - t) * omega) / sinOmega;
               b = sin (t * omega) / sinOmega;
               resultCart = \<lparr>x = a * x startCart + b * x endCart,
                              y = a * y startCart + b * y endCart,
                              z = a * z startCart + b * z endCart\<rparr>
           in cartesianToSpherical resultCart)"

fun easingFunctions :: "EasingFunction \<Rightarrow> real \<Rightarrow> real" where
  "easingFunctions Linear t = t"
| "easingFunctions EaseIn t = t * t"
| "easingFunctions EaseOut t = t * (2 - t)"
| "easingFunctions EaseInOut t = (if t < 0.5 then 2 * t * t else - 1 + (4 - 2 * t) * t)"

text \<open>
  Entries of \<open>commonStates\<close>. \<open>Math.PI / 2\<close> and \<open>3 * Math.PI / 2\<close> are written with \<open>\<pi>\<close>.
  \<open>one\<close> keeps the double \<open>Math.PI\<close> as its \<open>theta\<close>: with \<open>\<pi>\<close> the states \<open>zero\<close> and \<open>one\<close>
  would be exactly antipodal, which they are not in the program.
\<close>

definition commonStates_zero :: SphericalCoordinates where
  "commonStates_zero = \<lparr>theta = 0, phi = 0\<rparr>"

definition commonStates_one :: SphericalCoordinates where
  "commonStates_one = \<lparr>theta = MathPI, phi = 0\<rparr>"

definition commonStates_plus :: SphericalCoordinates where
  "commonStates_plus = \<lparr>theta = pi / 2, phi = 0\<rparr>"

definition commonStates_plusI :: SphericalCoordinates where
  "commonStates_plusI = \<lparr>theta = pi / 2, phi = pi / 2\<rparr>"

definition commonStates_minusI :: SphericalCoordinates where
  "commonStates_minusI = \<lparr>theta = pi / 2, phi = 3 * pi / 2\<rparr>"

section \<open>Animation driver (hooks/useAnimation.ts)\<close>

text \<open>
  One instance of the hook \<open>useAnimation\<close> together with the two pieces of its environment
  that it drives: React's bookkeeping for its single effect (the dependency values of the
  last run and whether that run returned the cleanup function) and the browser's list of
  pending animation-frame callbacks.

  A pending callback is a closure of \<open>animate\<close>; it captures \<open>targetState\<close>, \<open>duration\<close>
  and \<open>easingFn\<close> of the render that created it. \<open>currentState\<close> and \<open>startStateRef\<close> are
  options because an interpolation at a progress that is not a number yields \<open>NaN\<close>
  coordinates (\<open>None\<close>).

  \<open>events\<close> is a log of the calls of \<open>onStart\<close> and \<open>onEnd\<close>. The callbacks take no
  argument; the log entry of \<open>onEnd\<close> records the target captured by the closure that
  called it, so that statements can tell the animations apart.
\<close>

datatype Event = AnimationStart | AnimationEnd SphericalCoordinates

record Frame =
  frameId :: nat
  frameTarget :: SphericalCoordinates
  frameDuration :: real
  frameEasing :: EasingFunction

record Driver =
  currentState :: "SphericalCoordinates option"
  animationRef :: "nat option"
  startStateRef :: "SphericalCoordinates option"
  startTimeRef :: "real option"
  isFirstRender :: bool
  prevTargetRef :: SphericalCoordinates
  effectDeps :: "(real \<times> real \<times> bool \<times> real \<times> EasingFunction) option"
  effectCleanup :: bool
  rafQueue :: "Frame list"
  nextHandle :: nat
  events :: "Event list"

text \<open>
  \<open>Math.min(elapsed / duration, 1)\<close>. With \<open>duration = 0\<close> the quotient is \<open>+Infinity\<close>
  (minimum 1), \<open>NaN\<close> or \<open>-Infinity\<close>.
\<close>

datatype Progress = Fin real | NaN | NegInf

definition progressOf :: "real \<Rightarrow> real \<Rightarrow> Progress" where
  "progressOf elapsed durationV =
     (if durationV \<noteq> 0 then Fin (min (elapsed / durationV) 1)
      else if 0 < elapsed then Fin 1
      else if elapsed = 0 then NaN
      else NegInf)"

text \<open>The hook before its first effect: \<open>useState(targetState)\<close> and the five \<open>useRef\<close>.\<close>

definition useAnimationInit :: "SphericalCoordinates \<Rightarrow> Driver" where
  "useAnimationInit targetState =
     \<lparr>currentState = Some targetState, animationRef = None,
      startStateRef = Some targetState, startTimeRef = None,
      isFirstRender = True, prevTargetRef = targetState,
      effectDeps = None, effectCleanup = False,
      rafQueue = [], nextHandle = 1, events = []\<rparr>"

definition cancelAnimationFrame :: "nat \<Rightarrow> Driver \<Rightarrow> Driver" where
  "cancelAnimationFrame h w = w\<lparr>rafQueue := filter (\<lambda>f. frameId f \<noteq> h) (rafQueue w)\<rparr>"

text \<open>\<^verbatim>\<open>if (animationRef.current) cancelAnimationFrame(animationRef.current)\<close>\<close>

definition cancelOngoing :: "Driver \<Rightarrow> Driver" where
  "cancelOngoing w =
     (case animationRef w of
        None \<Rightarrow> w
      | Some h \<Rightarrow> if h \<noteq> 0 then cancelAnimationFrame h w else w)"

definition requestAnimationFrame ::
  "SphericalCoordinates \<Rightarrow> real \<Rightarrow> EasingFunction \<Rightarrow> Driver \<Rightarrow> nat \<times> Driver" where
  "requestAnimationFrame targetState durationV easingV w =
     (nextHandle w,
      w\<lparr>rafQueue := rafQueue w @
            [\<lparr>frameId = nextHandle w, frameTarget = targetState,
              frameDuration = durationV, frameEasing = easingV\<rparr>],
        nextHandle := Suc (nextHandle w)\<rparr>)"

text \<open>The frame callback \<open>animate(timestamp)\<close> of the closure \<open>f\<close>.\<close>

definition animate :: "Frame \<Rightarrow> real \<Rightarrow> Driver \<Rightarrow> Driver" where
  "animate f timestamp w =
     (let startTime = (case startTimeRef w of None \<Rightarrow> timestamp | Some t0 \<Rightarrow> t0);
          w1 = w\<lparr>startTimeRef := Some startTime\<rparr>;
          elapsed = timestamp - startTime;
          progress = progressOf elapsed (frameDuration f);
          interpolated =
            (case (progress, startStateRef w1) of
               (Fin p, Some s) \<Rightarrow>
                 Some (slerp s (frameTarget f) (easingFunctions (frameEasing f) p))
             | _ \<Rightarrow> None);
          w2 = w1\<lparr>currentState := interpolated\<rparr>
      in if (case progress of Fin p \<Rightarrow> p < 1 | NaN \<Rightarrow> False | NegInf \<Rightarrow> True)
         then
           let (h, w3) = requestAnimationFrame (frameTarget f) (frameDuration f) (frameEasing f) w2
           in w3\<lparr>animationRef := Some h\<rparr>
         else w2\<lparr>animationRef := None, events := events w2 @ [AnimationEnd (frameTarget f)]\<rparr>)"

text \<open>
  One render of the component with the props \<open>targetState\<close> and \<open>config\<close>: the hook body and,
  when a dependency changed, the cleanup of the previous effect followed by the effect.
  \<open>targetChanged\<close> and \<open>currentState\<close> are the values of that render.
\<close>

definition useAnimation :: "SphericalCoordinates \<Rightarrow> AnimationConfig \<Rightarrow> Driver \<Rightarrow> Driver" where
  "useAnimation targetState config w =
     (let enabledV = (case enabled config of None \<Rightarrow> True | Some b \<Rightarrow> b);
          durationV = (case duration config of None \<Rightarrow> 300 | Some d \<Rightarrow> d);
          easingV = (case easing config of None \<Rightarrow> EaseInOut | Some e \<Rightarrow> e);
          targetChanged = (theta (prevTargetRef w) \<noteq> theta targetState
                           \<or> phi (prevTargetRef w) \<noteq> phi targetState);
          deps = (theta targetState, phi targetState, enabledV, durationV, easingV)
      in if effectDeps w = Some deps then w
         else
           let w0 = (if effectCleanup w then cancelOngoing w else w)
                      \<lparr>effectDeps := Some deps, effectCleanup := False\<rparr>
           in if isFirstRender w0
              then w0\<lparr>isFirstRender := False, currentState := Some targetState,
                      prevTargetRef := targetState\<rparr>
              else if \<not> targetChanged then w0
              else
                let w1 = w0\<lparr>prevTargetRef := targetState\<rparr>
                in if \<not> enabledV then w1\<lparr>currentState := Some targetState\<rparr>
                   else
                     let w2 = cancelOngoing w1;
                         w3 = w2\<lparr>startStateRef := currentState w, startTimeRef := None,
                                  events := events w2 @ [AnimationStart]\<rparr>;
                         (h, w4) = requestAnimationFrame targetState durationV easingV w3
                     in w4\<lparr>animationRef := Some h, effectCleanup := True\<rparr>)"

text \<open>One display frame at \<open>timestamp\<close>: the browser runs the callbacks pending at its start.\<close>

definition tick :: "real \<Rightarrow> Driver \<Rightarrow> Driver" where
  "tick timestamp w = foldl (\<lambda>w' f. animate f timestamp w') (w\<lparr>rafQueue := []\<rparr>) (rafQueue w)"

fun ticks :: "real list \<Rightarrow> Driver \<Rightarrow> Driver" where
  "ticks [] w = w"
| "ticks (t # ts) w = ticks ts (tick t w)"

section \<open>Predicates of the statements\<close>

text \<open>The canonical ranges of \<open>SphericalCoordinates\<close>.\<close>

definition inRange :: "SphericalCoordinates \<Rightarrow> bool" where
  "inRange c \<longleftrightarrow> 0 \<le> theta c \<and> theta c \<le> pi \<and> 0 \<le> phi c \<and> phi c < 2 * pi"

text \<open>
  An animation toward \<open>A\<close> is in flight: the effect last ran for the target \<open>A\<close> and
  returned its cleanup, and the one pending frame callback is the one \<open>animationRef\<close>
  holds, with \<open>A\<close> as captured target.
\<close>

definition inFlight :: "SphericalCoordinates \<Rightarrow> Driver \<Rightarrow> bool" where
  "inFlight A w \<longleftrightarrow>
     \<not> isFirstRender w \<and> prevTargetRef w = A \<and> effectCleanup w
     \<and> (case rafQueue w of
          [f] \<Rightarrow> frameTarget f = A \<and> frameId f \<noteq> 0 \<and> animationRef w = Some (frameId f)
        | _ \<Rightarrow> False)
     \<and> (case effectDeps w of
          Some (th, ph, _) \<Rightarrow> th = theta A \<and> ph = phi A
        | None \<Rightarrow> False)"

text \<open>
  Invariant of the frames after a start toward \<open>B\<close>: every pending callback has target
  \<open>B\<close>, the start point is \<open>s\<close>, and the log is \<open>ev\<close> followed by end events of \<open>B\<close> only.
\<close>

definition onlyTarget ::
  "SphericalCoordinates \<Rightarrow> SphericalCoordinates option \<Rightarrow> Event list \<Rightarrow> Driver \<Rightarrow> bool" where
  "onlyTarget B s ev w \<longleftrightarrow>
     list_all (\<lambda>f. frameTarget f = B) (rafQueue w)
     \<and> startStateRef w = s
     \<and> (\<exists>n. events w = ev @ replicate n (AnimationEnd B))"

text \<open>
  A run of the driver: mounted at \<open>|+>\<close>, retargeted to \<open>|+i>\<close> with the default
  configuration (300 ms, ease-in-out), then two frames at 0 ms and 150 ms.
\<close>

definition defaultConfig :: AnimationConfig where
  "defaultConfig = \<lparr>enabled = None, duration = None, easing = None\<rparr>"

definition midFlight :: Driver where
  "midFlight = tick 150 (tick 0 (useAnimation commonStates_plusI defaultConfig
      (useAnimation commonStates_plus defaultConfig (useAnimationInit commonStates_plus))))"

section \<open>Facts about the number model\<close>

lemma cos_neg_upper: "pi / 2 < a \<Longrightarrow> a \<le> pi \<Longrightarrow> cos a < 0"
  using cos_monotone_0_pi[of "pi / 2" a] pi_gt_zero by simp

lemma cos_neg_lower: "- pi \<le> a \<Longrightarrow> a < - (pi / 2) \<Longrightarrow> cos a < 0"
  using cos_neg_upper[of "- a"] by simp

lemma sin_neg_lower: "- pi < a \<Longrightarrow> a < 0 \<Longrightarrow> sin a < 0"
  using sin_gt_zero[of "- a"] by simp

lemma quot_tan: "r \<noteq> 0 \<Longrightarrow> (r * sin a) / (r * cos a) = tan a"
  by (simp add: tan_def)

lemma atan2_polar:
  assumes r: "0 < r" and lo: "- pi < a" and hi: "a \<le> pi"
  shows "atan2 (r * sin a) (r * cos a) = a"
proof -
  have q: "(r * sin a) / (r * cos a) = tan a"
    by (rule quot_tan) (use r in simp)
  consider (A) "a < - (pi / 2)" | (B) "a = - (pi / 2)" | (C) "- (pi / 2) < a" "a < pi / 2"
    | (D) "a = pi / 2" | (E) "pi / 2 < a" "a < pi" | (F) "a = pi"
    using hi by linarith
  then show ?thesis
  proof cases
    case A
    have c: "r * cos a < 0"
      using cos_neg_lower[of a] A lo r by (simp add: mult_pos_neg)
    have s: "r * sin a < 0"
      using sin_neg_lower[of a] A lo r pi_gt_zero by (simp add: mult_pos_neg)
    have "arctan (tan a) = arctan (tan (a + pi))"
      by simp
    also have "\<dots> = a + pi"
      using A lo by (intro arctan_tan) linarith+
    finally show ?thesis
      using c s q by (simp add: atan2_def)
  next
    case B
    have "cos a = 0" "sin a = - 1" unfolding B by simp_all
    then have "atan2 (r * sin (- (pi / 2))) (r * cos (- (pi / 2))) = - (pi / 2)"
      using r by (simp add: atan2_def)
    then show ?thesis unfolding B .
  next
    case C
    have c: "0 < r * cos a"
      using cos_gt_zero_pi[of a] C r by simp
    show ?thesis
      using c q C by (simp add: atan2_def arctan_tan)
  next
    case D
    have "cos a = 0" "sin a = 1" unfolding D by simp_all
    then have "atan2 (r * sin (pi / 2)) (r * cos (pi / 2)) = pi / 2"
      using r by (simp add: atan2_def)
    then show ?thesis unfolding D .
  next
    case E
    have c: "r * cos a < 0"
      using cos_neg_upper[of a] E r by (simp add: mult_pos_neg)
    have s: "0 \<le> r * sin a"
      using sin_gt_zero[of a] E r pi_gt_zero by simp
    have "arctan (tan a) = arctan (tan (a - pi))"
      using tan_periodic_pi[of "a - pi"] by simp
    also have "\<dots> = a - pi"
      using E by (intro arctan_tan) linarith+
    finally show ?thesis
      using c s q by (simp add: atan2_def)
  next
    case F
    have "cos a = - 1" "sin a = 0" unfolding F by simp_all
    then have "atan2 (r * sin pi) (r * cos pi) = pi"
      using r by (simp add: atan2_def)
    then show ?thesis unfolding F .
  qed
qed

section \<open>Facts about the loops and the Cartesian round trip\<close>

lemma whileNegative_nonneg [simp]: "0 \<le> p \<Longrightarrow> whileNegative p = p"
  by (simp add: whileNegative.simps)

lemma whileNegative_once: "- (2 * pi) \<le> p \<Longrightarrow> p < 0 \<Longrightarrow> whileNegative p = p + 2 * pi"
  using whileNegative.simps[of p] whileNegative_nonneg[of "p + 2 * pi"] by simp

lemma whileAtLeast2Pi_small [simp]: "p < 2 * pi \<Longrightarrow> whileAtLeast2Pi p = p"
  by (simp add: whileAtLeast2Pi.simps)

lemma unit_norm: "(sin (a::real) * cos b)\<^sup>2 + (sin a * sin b)\<^sup>2 + (cos a)\<^sup>2 = 1"
proof -
  have "(sin a * cos b)\<^sup>2 + (sin a * sin b)\<^sup>2 + (cos a)\<^sup>2
      = (sin a)\<^sup>2 * ((cos b)\<^sup>2 + (sin b)\<^sup>2) + (cos a)\<^sup>2"
    by (simp only: power_mult_distrib distrib_left)
  also have "\<dots> = (sin a)\<^sup>2 * 1 + (cos a)\<^sup>2"
    by (simp only: cos_squared_eq) simp
  also have "\<dots> = 1"
    by simp
  finally show ?thesis .
qed

lemma azimuth_roundtrip:
  assumes r: "0 < r" and lo: "0 \<le> a" and hi: "a < 2 * pi"
  shows "whileNegative (atan2 (r * sin a) (r * cos a)) = a"
proof (cases "a \<le> pi")
  case True
  then have "atan2 (r * sin a) (r * cos a) = a"
    using r lo by (intro atan2_polar) (use pi_gt_zero in linarith)+
  then show ?thesis using lo by simp
next
  case False
  have "atan2 (r * sin (a - 2 * pi)) (r * cos (a - 2 * pi)) = a - 2 * pi"
    using r False hi by (intro atan2_polar) linarith+
  moreover have "sin (a - 2 * pi) = sin a" "cos (a - 2 * pi) = cos a"
    using sin_periodic[of "a - 2 * pi"] cos_periodic[of "a - 2 * pi"] by simp_all
  ultimately have "atan2 (r * sin a) (r * cos a) = a - 2 * pi"
    by simp
  then show ?thesis
    using whileNegative_once[of "a - 2 * pi"] False hi pi_gt_zero by simp
qed

lemma cartesian_roundtrip:
  assumes "0 < theta c" "theta c < pi" "0 \<le> phi c" "phi c < 2 * pi"
  shows "cartesianToSpherical (sphericalToCartesian c) = c"
proof -
  have s: "0 < sin (theta c)"
    using assms by (simp add: sin_gt_zero)
  have n: "(sin (theta c) * cos (phi c))\<^sup>2 + (sin (theta c) * sin (phi c))\<^sup>2
      + (cos (theta c))\<^sup>2 = 1"
    by (rule unit_norm)
  have th: "arccos (cos (theta c)) = theta c"
    using assms by (simp add: arccos_cos)
  have ph: "whileNegative (atan2 (sin (theta c) * sin (phi c)) (sin (theta c) * cos (phi c)))
      = phi c"
    using s assms by (intro azimuth_roundtrip)
  show ?thesis
    using n th ph by (simp add: cartesianToSpherical_def sphericalToCartesian_def)
qed

text \<open>The converse round trip: a unit vector is the vector of its spherical coordinates.\<close>

lemma cos_sin_whileNegative:
  "cos (whileNegative p) = cos p \<and> sin (whileNegative p) = sin p"
proof (induction p rule: whileNegative.induct)
  case (1 p)
  show ?case
  proof (cases "p < 0")
    case True
    then have "whileNegative p = whileNegative (p + 2 * pi)"
      by (simp add: whileNegative.simps[of p])
    then show ?thesis
      using 1[OF True] by simp
  next
    case False
    then show ?thesis by simp
  qed
qed

lemma polar_atan2:
  "sqrt (u\<^sup>2 + v\<^sup>2) * cos (atan2 v u) = u \<and> sqrt (u\<^sup>2 + v\<^sup>2) * sin (atan2 v u) = v"
proof -
  have split: "u\<^sup>2 + v\<^sup>2 = u\<^sup>2 * (1 + (v / u)\<^sup>2)" if "u \<noteq> 0"
    using that by (simp add: field_simps power2_eq_square)
  have pos: "0 < sqrt (1 + (v / u)\<^sup>2)"
    by (simp add: add_pos_nonneg)
  consider (P) "0 < u" | (N) "u < 0" | (Z) "u = 0"
    by linarith
  then show ?thesis
  proof cases
    case P
    have r: "sqrt (u\<^sup>2 + v\<^sup>2) = u * sqrt (1 + (v / u)\<^sup>2)"
      using P split by (simp add: real_sqrt_mult)
    have a: "atan2 v u = arctan (v / u)"
      using P by (simp add: atan2_def)
    show ?thesis
      unfolding r a using P pos by (simp add: cos_arctan sin_arctan)
  next
    case N
    have r: "sqrt (u\<^sup>2 + v\<^sup>2) = - u * sqrt (1 + (v / u)\<^sup>2)"
      using N split by (simp add: real_sqrt_mult)
    have a: "atan2 v u = arctan (v / u) + pi \<or> atan2 v u = arctan (v / u) - pi"
      using N by (simp add: atan2_def)
    have c: "cos (atan2 v u) = - cos (arctan (v / u))"
      using a by auto
    have s: "sin (atan2 v u) = - sin (arctan (v / u))"
      using a by auto
    show ?thesis
      unfolding r c s using N pos by (simp add: cos_arctan sin_arctan)
  next
    case Z
    have r: "sqrt (u\<^sup>2 + v\<^sup>2) = \<bar>v\<bar>"
      using Z by simp
    show ?thesis
      unfolding r using Z by (simp add: atan2_def)
  qed
qed

lemma spherical_of_unit:
  assumes n: "(x v)\<^sup>2 + (y v)\<^sup>2 + (z v)\<^sup>2 = 1"
  shows "sphericalToCartesian (cartesianToSpherical v) = v"
proof -
  have "0 \<le> (x v)\<^sup>2 + (y v)\<^sup>2"
    by simp
  then have z2: "(z v)\<^sup>2 \<le> 1"
    using n by linarith
  then have "\<bar>z v\<bar> \<le> 1"
    by (simp add: abs_square_le_1)
  then have zb: "- 1 \<le> z v" "z v \<le> 1"
    by linarith+
  have rho: "sqrt (1 - (z v)\<^sup>2) = sqrt ((x v)\<^sup>2 + (y v)\<^sup>2)"
    using n by (simp add: algebra_simps)
  let ?th = "arccos (z v)"
  let ?ph = "whileNegative (atan2 (y v) (x v))"
  have cs: "cartesianToSpherical v = \<lparr>theta = ?th, phi = ?ph\<rparr>"
    using n zb by (simp add: cartesianToSpherical_def)
  have c: "cos ?th = z v"
    using zb by (simp add: cos_arccos)
  have s: "sin ?th = sqrt ((x v)\<^sup>2 + (y v)\<^sup>2)"
    using zb rho by (simp add: sin_arccos)
  have "sphericalToCartesian \<lparr>theta = ?th, phi = ?ph\<rparr> = \<lparr>x = x v, y = y v, z = z v\<rparr>"
    using polar_atan2[of "x v" "y v"] cos_sin_whileNegative[of "atan2 (y v) (x v)"]
    by (simp add: sphericalToCartesian_def c s)
  then show ?thesis
    using cs by simp
qed

lemma point_roundtrip:
  "sphericalToCartesian (cartesianToSpherical (sphericalToCartesian c)) = sphericalToCartesian c"
proof (rule spherical_of_unit)
  show "(x (sphericalToCartesian c))\<^sup>2 + (y (sphericalToCartesian c))\<^sup>2
      + (z (sphericalToCartesian c))\<^sup>2 = 1"
    using unit_norm[of "theta c" "phi c"] by (simp add: sphericalToCartesian_def)
qed

section \<open>Facts about interpolation\<close>

lemma MathPI_less_pi: "MathPI < pi"
  by (simp add: MathPI_def)

lemma MathPI_gt_one: "1 < MathPI"
proof -
  have "(12246467991473532::real) / 10 ^ 32 < 1"
    by simp
  then show ?thesis
    using pi_ge_two by (simp add: MathPI_def)
qed

lemma half_pi_less_MathPI: "pi / 2 < MathPI"
proof -
  have "(12246467991473532::real) / 10 ^ 32 < 1"
    by simp
  moreover have "1 \<le> pi / 2"
    using pi_ge_two by simp
  ultimately show ?thesis
    by (simp add: MathPI_def)
qed




lemma Math_acos_bounds: "- 1 \<le> v \<Longrightarrow> v \<le> 1 \<Longrightarrow> 0 \<le> Math_acos v \<and> Math_acos v \<le> MathPI"
  using MathPI_gt_one by (simp add: Math_acos_def arccos_lbound)

lemma Math_acos_below: "arccos v \<le> MathPI \<Longrightarrow> Math_acos v = arccos v"
  by (simp add: Math_acos_def)

lemma slerpOmega_bounds: "0 \<le> slerpOmega s e \<and> slerpOmega s e \<le> MathPI"
  unfolding slerpOmega_def by (rule Math_acos_bounds) simp_all

lemma slerp_sin_pos:
  assumes "\<not> \<bar>slerpOmega s e\<bar> < 0.0001"
  shows "0 < sin (slerpOmega s e)"
proof -
  have "0 < slerpOmega s e"
    using assms slerpOmega_bounds[of s e] by (simp add: abs_if split: if_splits)
  moreover have "slerpOmega s e < pi"
    using slerpOmega_bounds[of s e] MathPI_less_pi by linarith
  ultimately show ?thesis
    by (rule sin_gt_zero)
qed

lemma slerpDot_self: "slerpDot p p = 1"
  using unit_norm[of "theta p" "phi p"]
  by (simp add: slerpDot_def sphericalToCartesian_def power2_eq_square)

lemma slerp_same: "slerp p p t = p"
  using MathPI_gt_one
  by (simp add: slerp_def slerpOmega_def Math_acos_def slerpDot_self)

text \<open>
  At \<open>t = 0\<close> the weights are 1 and 0, at \<open>t = 1\<close> they are 0 and 1: outside the fallback the
  result is the conversion of the Cartesian vector of the start or of the end.
\<close>

lemma slerp_at_0:
  "slerp s e 0 = s \<or> slerp s e 0 = cartesianToSpherical (sphericalToCartesian s)"
proof (cases "\<bar>slerpOmega s e\<bar> < 0.0001")
  case True
  then show ?thesis by (simp add: slerp_def)
next
  case False
  have sn: "sin (slerpOmega s e) \<noteq> 0"
    using slerp_sin_pos[OF False] by simp
  have rc: "\<lparr>x = x (sphericalToCartesian s), y = y (sphericalToCartesian s),
      z = z (sphericalToCartesian s)\<rparr> = sphericalToCartesian s"
    by simp
  show ?thesis
    using False sn by (simp add: slerp_def Let_def rc)
qed

lemma slerp_at_1:
  "slerp s e 1 = e \<or> slerp s e 1 = cartesianToSpherical (sphericalToCartesian e)"
proof (cases "\<bar>slerpOmega s e\<bar> < 0.0001")
  case True
  then show ?thesis by (simp add: slerp_def)
next
  case False
  have sn: "sin (slerpOmega s e) \<noteq> 0"
    using slerp_sin_pos[OF False] by simp
  have rc: "\<lparr>x = x (sphericalToCartesian e), y = y (sphericalToCartesian e),
      z = z (sphericalToCartesian e)\<rparr> = sphericalToCartesian e"
    by simp
  show ?thesis
    using False sn by (simp add: slerp_def Let_def rc)
qed

lemma theta_roundtrip:
  assumes "0 \<le> theta c" "theta c \<le> pi"
  shows "theta (cartesianToSpherical (sphericalToCartesian c)) = theta c"
proof -
  have n: "(sin (theta c) * cos (phi c))\<^sup>2 + (sin (theta c) * sin (phi c))\<^sup>2
      + (cos (theta c))\<^sup>2 = 1"
    by (rule unit_norm)
  have th: "arccos (cos (theta c)) = theta c"
    using assms by (simp add: arccos_cos)
  show ?thesis
    using n th by (simp add: cartesianToSpherical_def sphericalToCartesian_def)
qed

text \<open>
  What a result \<open>r\<close> that is \<open>c\<close> or the conversion of the Cartesian vector of \<open>c\<close> shares
  with \<open>c\<close>: always the Cartesian vector; for \<open>c\<close> in the canonical ranges the polar angle,
  and away from the poles the azimuth too.
\<close>

lemma endpoint_point:
  assumes "r = c \<or> r = cartesianToSpherical (sphericalToCartesian c)"
  shows "sphericalToCartesian r = sphericalToCartesian c"
  using assms point_roundtrip[of c] by auto

lemma endpoint_coordinates:
  assumes c: "inRange c"
    and r: "r = c \<or> r = cartesianToSpherical (sphericalToCartesian c)"
  shows "theta r = theta c \<and> (0 < theta c \<and> theta c < pi \<longrightarrow> r = c)"
proof -
  have th: "theta r = theta c"
    using r c by (auto simp: inRange_def theta_roundtrip)
  have mid: "r = c" if "0 < theta c" "theta c < pi"
    using r c that by (auto simp: inRange_def cartesian_roundtrip)
  show ?thesis
    using th mid by blast
qed

section \<open>Facts about the amplitude converters\<close>

lemma amplitudes_roundtrip:
  assumes "0 < theta c" "theta c < pi" "0 \<le> phi c" "phi c < 2 * pi"
  shows "amplitudesToSpherical (sphericalToAmplitudes c) = c"
proof -
  have ch: "0 < cos (theta c / 2)"
    using assms by (intro cos_gt_zero_pi) linarith+
  have sh: "0 < sin (theta c / 2)"
    using assms by (intro sin_gt_zero) linarith+
  have am: "sqrt ((cos (theta c / 2))\<^sup>2 + 0\<^sup>2) = cos (theta c / 2)"
    using ch by simp
  have "(sin (theta c / 2) * cos (phi c))\<^sup>2 + (sin (theta c / 2) * sin (phi c))\<^sup>2
      = (sin (theta c / 2))\<^sup>2 * ((cos (phi c))\<^sup>2 + (sin (phi c))\<^sup>2)"
    by (simp only: power_mult_distrib distrib_left)
  then have bm: "sqrt ((sin (theta c / 2) * cos (phi c))\<^sup>2 + (sin (theta c / 2) * sin (phi c))\<^sup>2)
      = sin (theta c / 2)"
    using sh by simp
  have n: "sqrt ((cos (theta c / 2))\<^sup>2 + (sin (theta c / 2))\<^sup>2) = 1"
    by simp
  have th: "2 * arccos (min 1 (max 0 (cos (theta c / 2) / 1))) = theta c"
  proof -
    have "min 1 (max 0 (cos (theta c / 2) / 1)) = cos (theta c / 2)"
      using ch by simp
    moreover have "arccos (cos (theta c / 2)) = theta c / 2"
      using assms by (intro arccos_cos) linarith+
    ultimately show ?thesis by simp
  qed
  have ap: "atan2 0 (cos (theta c / 2)) = 0"
    using ch by (simp add: atan2_def)
  have ph: "whileAtLeast2Pi (whileNegative
      (atan2 (sin (theta c / 2) * sin (phi c)) (sin (theta c / 2) * cos (phi c)) - 0)) = phi c"
    using azimuth_roundtrip[OF sh assms(3,4)] assms(4) by simp
  show ?thesis
    unfolding amplitudesToSpherical_def sphericalToAmplitudes_def Let_def
    by (simp only: ComplexNum.simps ComplexAmplitude.simps am bm n th ap ph) simp
qed

section \<open>Concrete interpolations\<close>



lemma tolerance_below: "\<not> \<bar>MathPI\<bar> < 0.0001" "\<not> \<bar>pi / 2\<bar> < 0.0001"
  using MathPI_gt_one pi_ge_two by simp_all

lemma slerpDot_plus_plusI: "slerpDot commonStates_plus commonStates_plusI = 0"
  by (simp add: slerpDot_def sphericalToCartesian_def commonStates_plus_def commonStates_plusI_def)

lemma slerpOmega_plus_plusI: "slerpOmega commonStates_plus commonStates_plusI = pi / 2"
proof -
  have "pi / 2 \<le> MathPI"
    using half_pi_less_MathPI by simp
  then show ?thesis
    by (simp add: slerpOmega_def slerpDot_plus_plusI Math_acos_def)
qed

lemma inRange_commonStates:
  "inRange commonStates_zero" "inRange commonStates_one"
  "inRange commonStates_plus" "inRange commonStates_plusI" "inRange commonStates_minusI"
  using MathPI_gt_one MathPI_less_pi
  by (simp_all add: inRange_def commonStates_zero_def commonStates_one_def
      commonStates_plus_def commonStates_plusI_def commonStates_minusI_def)

lemma slerp_plus_plusI_0: "slerp commonStates_plus commonStates_plusI 0 = commonStates_plus"
proof -
  have "0 < theta commonStates_plus \<and> theta commonStates_plus < pi"
    by (simp add: commonStates_plus_def)
  then show ?thesis
    using endpoint_coordinates[OF inRange_commonStates(3)
        slerp_at_0[of commonStates_plus commonStates_plusI]]
    by blast
qed

lemma slerp_plus_plusI_half:
  "slerp commonStates_plus commonStates_plusI (1 / 2) = \<lparr>theta = pi / 2, phi = pi / 4\<rparr>"
proof -
  have h: "sin (pi / 4) = sqrt 2 / 2"
    by (rule sin_45)
  have r: "sqrt ((sqrt 2 / 2)\<^sup>2 + (sqrt 2 / 2)\<^sup>2 + 0\<^sup>2) = 1"
    by (simp add: power_divide)
  have a: "atan2 (sqrt 2 / 2) (sqrt 2 / 2) = pi / 4"
    by (simp add: atan2_def arctan_one)
  have c: "cartesianToSpherical \<lparr>x = sqrt 2 / 2, y = sqrt 2 / 2, z = 0\<rparr>
      = \<lparr>theta = pi / 2, phi = pi / 4\<rparr>"
    unfolding cartesianToSpherical_def Let_def
    by (simp only: CartesianCoordinates.simps r a) simp
  have q: "(1 - 1 / 2) * (pi / 2) = pi / 4" "1 / 2 * (pi / 2) = pi / 4"
    by simp_all
  show ?thesis
    unfolding slerp_def Let_def slerpOmega_plus_plusI
    using tolerance_below(2)
    by (simp only: q h if_False)
       (simp add: sphericalToCartesian_def commonStates_plus_def commonStates_plusI_def c)
qed

section \<open>Coordinate converters: the claims\<close>

text \<open>
  C1. Away from the poles the Cartesian round trip returns the original pair: for
  \<open>theta\<close> strictly between 0 and \<open>\<pi>\<close> and \<open>phi\<close> in \<open>[0, 2\<pi>)\<close>,
  \<open>cartesianToSpherical (sphericalToCartesian c)\<close> is \<open>c\<close>. In exact arithmetic the two
  pairs are equal, so their distance is below any tolerance; at the poles nothing is
  required of \<open>phi\<close>.
\<close>

theorem C1_cartesian_roundtrip:
  assumes "0 < theta c" "theta c < pi" "0 \<le> phi c" "phi c < 2 * pi"
  shows "cartesianToSpherical (sphericalToCartesian c) = c"
  using assms by (rule cartesian_roundtrip)

theorem C1_cartesian_roundtrip_witness:
  "0 < theta commonStates_minusI \<and> theta commonStates_minusI < pi
   \<and> 0 \<le> phi commonStates_minusI \<and> phi commonStates_minusI < 2 * pi
   \<and> cartesianToSpherical (sphericalToCartesian commonStates_minusI) = commonStates_minusI"
  using C1_cartesian_roundtrip[of commonStates_minusI]
  by (simp add: commonStates_minusI_def)

text \<open>
  C2. For \<open>theta\<close> strictly between 0 and \<open>\<pi>\<close> and \<open>phi\<close> in \<open>[0, 2\<pi>)\<close>,
  \<open>amplitudesToSpherical (sphericalToAmplitudes c)\<close> is \<open>c\<close>.
\<close>

theorem C2_amplitudes_roundtrip:
  assumes "0 < theta c" "theta c < pi" "0 \<le> phi c" "phi c < 2 * pi"
  shows "amplitudesToSpherical (sphericalToAmplitudes c) = c"
  using assms by (rule amplitudes_roundtrip)

theorem C2_amplitudes_roundtrip_witness:
  "0 < theta commonStates_minusI \<and> theta commonStates_minusI < pi
   \<and> 0 \<le> phi commonStates_minusI \<and> phi commonStates_minusI < 2 * pi
   \<and> amplitudesToSpherical (sphericalToAmplitudes commonStates_minusI) = commonStates_minusI"
  using C2_amplitudes_roundtrip[of commonStates_minusI]
  by (simp add: commonStates_minusI_def)

text \<open>
  C6. \<open>sphericalToCartesian\<close> returns a unit vector: \<open>x\<^sup>2 + y\<^sup>2 + z\<^sup>2\<close> is 1 for every
  \<open>theta\<close> and \<open>phi\<close>, hence within \<open>10\<^sup>-\<^sup>9\<close> of 1.
\<close>

theorem C6_sphericalToCartesian_unit:
  "(x (sphericalToCartesian c))\<^sup>2 + (y (sphericalToCartesian c))\<^sup>2
     + (z (sphericalToCartesian c))\<^sup>2 = 1
   \<and> \<bar>(x (sphericalToCartesian c))\<^sup>2 + (y (sphericalToCartesian c))\<^sup>2
        + (z (sphericalToCartesian c))\<^sup>2 - 1\<bar> \<le> 1 / 10 ^ 9"
proof -
  have "(x (sphericalToCartesian c))\<^sup>2 + (y (sphericalToCartesian c))\<^sup>2
      + (z (sphericalToCartesian c))\<^sup>2 = 1"
    using unit_norm[of "theta c" "phi c"] by (simp add: sphericalToCartesian_def)
  then show ?thesis by simp
qed

text \<open>
  C8. The converters return a value on the degenerate inputs: the all-zero amplitude pair
  and the zero vector both give the north pole \<open>{theta: 0, phi: 0}\<close>.
\<close>

theorem C8_degenerate_inputs:
  "amplitudesToSpherical
     \<lparr>alpha = \<lparr>real_c = 0, imag_c = 0\<rparr>, beta = \<lparr>real_c = 0, imag_c = 0\<rparr>\<rparr>
     = \<lparr>theta = 0, phi = 0\<rparr>
   \<and> cartesianToSpherical \<lparr>x = 0, y = 0, z = 0\<rparr> = \<lparr>theta = 0, phi = 0\<rparr>"
  by (simp add: amplitudesToSpherical_def cartesianToSpherical_def)

text \<open>
  C10. \<open>sphericalToAmplitudes\<close> returns a normalised pair, \<open>|alpha|\<^sup>2 + |beta|\<^sup>2 = 1\<close>, for
  every \<open>theta\<close> and \<open>phi\<close>, and the imaginary part of \<open>alpha\<close> is 0.
\<close>

theorem C10_sphericalToAmplitudes_normalised:
  "(real_c (alpha (sphericalToAmplitudes c)))\<^sup>2 + (imag_c (alpha (sphericalToAmplitudes c)))\<^sup>2
     + ((real_c (beta (sphericalToAmplitudes c)))\<^sup>2
        + (imag_c (beta (sphericalToAmplitudes c)))\<^sup>2) = 1
   \<and> imag_c (alpha (sphericalToAmplitudes c)) = 0"
proof -
  have "(cos (theta c / 2))\<^sup>2 + ((sin (theta c / 2) * cos (phi c))\<^sup>2
      + (sin (theta c / 2) * sin (phi c))\<^sup>2) = 1"
    using unit_norm[of "theta c / 2" "phi c"] by simp
  then show ?thesis
    by (simp add: sphericalToAmplitudes_def Let_def)
qed

section \<open>Interpolation: the claims\<close>

text \<open>
  C3. For any two points \<open>s\<close> and \<open>e\<close>, antipodal pairs included, \<open>slerp(s, e, 0)\<close> is the
  point \<open>s\<close> and \<open>slerp(s, e, 1)\<close> is the point \<open>e\<close>: the result has the Cartesian vector of
  that point; when the point is in the canonical ranges the result has its polar angle,
  and away from the poles, where the azimuth is defined, it is the same pair. For every
  point \<open>p\<close> and every \<open>t\<close>, \<open>slerp(p, p, t)\<close> is \<open>p\<close>.
\<close>

theorem C3_slerp_endpoints:
  "sphericalToCartesian (slerp s e 0) = sphericalToCartesian s
   \<and> sphericalToCartesian (slerp s e 1) = sphericalToCartesian e
   \<and> (inRange s \<longrightarrow> theta (slerp s e 0) = theta s)
   \<and> (inRange s \<and> 0 < theta s \<and> theta s < pi \<longrightarrow> slerp s e 0 = s)
   \<and> (inRange e \<longrightarrow> theta (slerp s e 1) = theta e)
   \<and> (inRange e \<and> 0 < theta e \<and> theta e < pi \<longrightarrow> slerp s e 1 = e)
   \<and> slerp p p t = p"
  using endpoint_point[OF slerp_at_0[of s e]] endpoint_point[OF slerp_at_1[of s e]]
    endpoint_coordinates[OF _ slerp_at_0[of s e]] endpoint_coordinates[OF _ slerp_at_1[of s e]]
    slerp_same[of p t]
  by blast

theorem C3_slerp_endpoints_witness:
  "inRange commonStates_zero
   \<and> sphericalToCartesian (slerp commonStates_zero commonStates_one 0)
       = sphericalToCartesian commonStates_zero
   \<and> theta (slerp commonStates_zero commonStates_one 0) = theta commonStates_zero
   \<and> inRange commonStates_one \<and> 0 < theta commonStates_one \<and> theta commonStates_one < pi
   \<and> slerp commonStates_zero commonStates_one 1 = commonStates_one
   \<and> inRange commonStates_plus \<and> 0 < theta commonStates_plus \<and> theta commonStates_plus < pi
   \<and> slerp commonStates_plus commonStates_plusI 0 = commonStates_plus
   \<and> inRange commonStates_plusI \<and> 0 < theta commonStates_plusI \<and> theta commonStates_plusI < pi
   \<and> slerp commonStates_plus commonStates_plusI 1 = commonStates_plusI
   \<and> slerp commonStates_minusI commonStates_minusI 7 = commonStates_minusI"
proof -
  have one: "0 < theta commonStates_one \<and> theta commonStates_one < pi"
    using MathPI_gt_one MathPI_less_pi by (simp add: commonStates_one_def)
  have plus: "0 < theta commonStates_plus \<and> theta commonStates_plus < pi"
    by (simp add: commonStates_plus_def)
  have plusI: "0 < theta commonStates_plusI \<and> theta commonStates_plusI < pi"
    by (simp add: commonStates_plusI_def)
  show ?thesis
    using C3_slerp_endpoints[of commonStates_zero commonStates_one commonStates_minusI 7]
      C3_slerp_endpoints[of commonStates_plus commonStates_plusI commonStates_minusI 7]
      one plus plusI inRange_commonStates
    by simp
qed


section \<open>Animation driver: facts\<close>

lemma animate_onlyTarget:
  assumes "onlyTarget B s ev w" "frameTarget f = B"
  shows "onlyTarget B s ev (animate f ts w)"
proof -
  obtain n where n: "events w = ev @ replicate n (AnimationEnd B)"
    using assms(1) by (auto simp: onlyTarget_def)
  have "ev @ replicate n (AnimationEnd B) @ [AnimationEnd B] = ev @ replicate (Suc n) (AnimationEnd B)"
    by (simp add: replicate_append_same)
  then have ex: "\<exists>m. ev @ replicate n (AnimationEnd B) @ [AnimationEnd B]
      = ev @ replicate m (AnimationEnd B)"
    by blast
  show ?thesis
    using assms n ex
    by (auto simp: onlyTarget_def animate_def Let_def requestAnimationFrame_def
        split: Progress.splits option.splits)
qed

lemma foldl_animate_onlyTarget:
  assumes "list_all (\<lambda>f. frameTarget f = B) fs" "onlyTarget B s ev w"
  shows "onlyTarget B s ev (foldl (\<lambda>w' f. animate f ts w') w fs)"
  using assms
  by (induction fs arbitrary: w) (simp_all add: animate_onlyTarget)

lemma tick_onlyTarget:
  assumes "onlyTarget B s ev w"
  shows "onlyTarget B s ev (tick ts w)"
proof -
  have "onlyTarget B s ev (w\<lparr>rafQueue := []\<rparr>)"
    using assms by (simp add: onlyTarget_def)
  moreover have "list_all (\<lambda>f. frameTarget f = B) (rafQueue w)"
    using assms by (simp add: onlyTarget_def)
  ultimately show ?thesis
    unfolding tick_def by (intro foldl_animate_onlyTarget)
qed

lemma ticks_onlyTarget:
  "onlyTarget B s ev w \<Longrightarrow> onlyTarget B s ev (ticks tss w)"
  by (induction tss arbitrary: w) (simp_all add: tick_onlyTarget)

text \<open>The state after the render that supersedes an animation in flight.\<close>

lemma supersede_state:
  assumes fl: "inFlight A w" and ne: "theta B \<noteq> theta A \<or> phi B \<noteq> phi A"
    and en: "enabled config \<noteq> Some False"
  shows "useAnimation B config w
    = w\<lparr>effectDeps := Some (theta B, phi B, True,
            (case duration config of None \<Rightarrow> 300 | Some d \<Rightarrow> d),
            (case easing config of None \<Rightarrow> EaseInOut | Some e \<Rightarrow> e)),
         prevTargetRef := B,
         startStateRef := currentState w, startTimeRef := None,
         events := events w @ [AnimationStart],
         rafQueue := [\<lparr>frameId = nextHandle w, frameTarget = B,
            frameDuration = (case duration config of None \<Rightarrow> 300 | Some d \<Rightarrow> d),
            frameEasing = (case easing config of None \<Rightarrow> EaseInOut | Some e \<Rightarrow> e)\<rparr>],
         nextHandle := Suc (nextHandle w),
         animationRef := Some (nextHandle w), effectCleanup := True\<rparr>"
proof -
  obtain f where q: "rafQueue w = [f]" "frameTarget f = A" "frameId f \<noteq> 0"
      "animationRef w = Some (frameId f)"
    using fl by (auto simp: inFlight_def split: list.splits)
  obtain th ph rest where d: "effectDeps w = Some (th, ph, rest)" "th = theta A" "ph = phi A"
    using fl by (auto simp: inFlight_def split: option.splits)
  have nf: "\<not> isFirstRender w" and pt: "prevTargetRef w = A" and cl: "effectCleanup w"
    using fl by (simp_all add: inFlight_def)
  have env: "(case enabled config of None \<Rightarrow> True | Some b \<Rightarrow> b) = True"
    using en by (cases "enabled config") auto
  have tc: "theta A \<noteq> theta B \<or> phi A \<noteq> phi B"
    using ne by auto
  show ?thesis
    using q d nf pt cl tc
    by (auto simp: useAnimation_def Let_def env cancelOngoing_def cancelAnimationFrame_def
        requestAnimationFrame_def)
qed

lemma supersede_first_frame:
  assumes fl: "inFlight A w" and ne: "theta B \<noteq> theta A \<or> phi B \<noteq> phi A"
    and en: "enabled config \<noteq> Some False"
  shows "currentState (tick ts (useAnimation B config w))
    = (case (progressOf 0 (case duration config of None \<Rightarrow> 300 | Some d \<Rightarrow> d), currentState w) of
         (Fin p, Some s) \<Rightarrow>
           Some (slerp s B
             (easingFunctions (case easing config of None \<Rightarrow> EaseInOut | Some e \<Rightarrow> e) p))
       | _ \<Rightarrow> None)"
  unfolding supersede_state[OF fl ne en]
  by (simp add: tick_def animate_def Let_def requestAnimationFrame_def
      split: Progress.splits option.splits prod.splits)

lemma supersede_onlyTarget:
  assumes fl: "inFlight A w" and ne: "theta B \<noteq> theta A \<or> phi B \<noteq> phi A"
    and en: "enabled config \<noteq> Some False"
  shows "onlyTarget B (currentState w) (events w @ [AnimationStart])
    (ticks tss (useAnimation B config w))"
proof -
  have "onlyTarget B (currentState w) (events w @ [AnimationStart]) (useAnimation B config w)"
    unfolding supersede_state[OF fl ne en]
    by (simp add: onlyTarget_def)
  then show ?thesis by (rule ticks_onlyTarget)
qed

text \<open>A retarget of the mounted hook, with animation enabled, puts an animation in flight.\<close>

lemma start_inFlight:
  assumes ne: "theta A \<noteq> theta T \<or> phi A \<noteq> phi T" and en: "enabled config \<noteq> Some False"
  shows "inFlight A (useAnimation A config (useAnimation T config0 (useAnimationInit T)))"
proof -
  have env: "(case enabled config of None \<Rightarrow> True | Some b \<Rightarrow> b) = True"
    using en by (cases "enabled config") auto
  have tc: "theta T \<noteq> theta A \<or> phi T \<noteq> phi A"
    using ne by auto
  show ?thesis
    using tc
    by (auto simp: inFlight_def useAnimation_def useAnimationInit_def Let_def env
        cancelOngoing_def requestAnimationFrame_def)
qed

text \<open>The run \<open>midFlight\<close>, evaluated.\<close>

lemma started:
  "useAnimation commonStates_plusI defaultConfig
     (useAnimation commonStates_plus defaultConfig (useAnimationInit commonStates_plus))
   = \<lparr>currentState = Some commonStates_plus, animationRef = Some 1,
      startStateRef = Some commonStates_plus, startTimeRef = None,
      isFirstRender = False, prevTargetRef = commonStates_plusI,
      effectDeps = Some (pi / 2, pi / 2, True, 300, EaseInOut), effectCleanup = True,
      rafQueue = [\<lparr>frameId = 1, frameTarget = commonStates_plusI, frameDuration = 300,
        frameEasing = EaseInOut\<rparr>],
      nextHandle = 2, events = [AnimationStart]\<rparr>"
  by (simp add: useAnimation_def useAnimationInit_def defaultConfig_def commonStates_plus_def
      commonStates_plusI_def Let_def cancelOngoing_def requestAnimationFrame_def)

lemma midFlight_eq:
  "midFlight
   = \<lparr>currentState = Some \<lparr>theta = pi / 2, phi = pi / 4\<rparr>, animationRef = Some 3,
      startStateRef = Some commonStates_plus, startTimeRef = Some 0,
      isFirstRender = False, prevTargetRef = commonStates_plusI,
      effectDeps = Some (pi / 2, pi / 2, True, 300, EaseInOut), effectCleanup = True,
      rafQueue = [\<lparr>frameId = 3, frameTarget = commonStates_plusI, frameDuration = 300,
        frameEasing = EaseInOut\<rparr>],
      nextHandle = 4, events = [AnimationStart]\<rparr>"
  unfolding midFlight_def started
  by (simp add: tick_def animate_def progressOf_def Let_def requestAnimationFrame_def
      slerp_plus_plusI_0 slerp_plus_plusI_half)

lemma midFlight_inFlight: "inFlight commonStates_plusI midFlight"
  unfolding midFlight_eq by (simp add: inFlight_def commonStates_plusI_def)

section \<open>Animation driver: the claim\<close>

text \<open>
  C4. While an animation toward \<open>A\<close> is in flight, a render with a differing target \<open>B\<close>
  and animation enabled logs exactly one start event and no end event; after any sequence
  of frames \<open>tss\<close> every pending callback has target \<open>B\<close> (the callback of \<open>A\<close> was
  cancelled and is never scheduled again), the log is the old log, the one start event,
  and end events of \<open>B\<close> only (the end event of \<open>A\<close> never fires), and the start point of
  the interpolation is the state that was current when \<open>B\<close> arrived. The first frame
  interpolates from that state toward \<open>B\<close> at elapsed time 0.
\<close>

theorem C4_supersede:
  assumes "inFlight A w" "theta B \<noteq> theta A \<or> phi B \<noteq> phi A" "enabled config \<noteq> Some False"
  shows "events (useAnimation B config w) = events w @ [AnimationStart]
    \<and> list_all (\<lambda>f. frameTarget f = B) (rafQueue (ticks tss (useAnimation B config w)))
    \<and> (\<exists>n. events (ticks tss (useAnimation B config w))
            = events w @ [AnimationStart] @ replicate n (AnimationEnd B))
    \<and> startStateRef (ticks tss (useAnimation B config w)) = currentState w
    \<and> currentState (tick ts (useAnimation B config w))
       = (case (progressOf 0 (case duration config of None \<Rightarrow> 300 | Some d \<Rightarrow> d), currentState w) of
            (Fin p, Some s) \<Rightarrow>
              Some (slerp s B
                (easingFunctions (case easing config of None \<Rightarrow> EaseInOut | Some e \<Rightarrow> e) p))
          | _ \<Rightarrow> None)"
proof -
  have e: "events (useAnimation B config w) = events w @ [AnimationStart]"
    unfolding supersede_state[OF assms] by simp
  have o: "onlyTarget B (currentState w) (events w @ [AnimationStart])
      (ticks tss (useAnimation B config w))"
    using assms by (rule supersede_onlyTarget)
  show ?thesis
    using e o supersede_first_frame[OF assms, of ts]
    by (simp add: onlyTarget_def)
qed

theorem C4_supersede_witness:
  "inFlight commonStates_plusI midFlight
   \<and> theta commonStates_one \<noteq> theta commonStates_plusI
   \<and> enabled defaultConfig \<noteq> Some False
   \<and> startStateRef midFlight = Some commonStates_plus
   \<and> currentState midFlight = Some \<lparr>theta = pi / 2, phi = pi / 4\<rparr>
   \<and> events midFlight = [AnimationStart]
   \<and> events (useAnimation commonStates_one defaultConfig midFlight) = [AnimationStart, AnimationStart]
   \<and> (\<forall>tss. list_all (\<lambda>f. frameTarget f = commonStates_one)
          (rafQueue (ticks tss (useAnimation commonStates_one defaultConfig midFlight)))
        \<and> (\<exists>n. events (ticks tss (useAnimation commonStates_one defaultConfig midFlight))
              = [AnimationStart, AnimationStart] @ replicate n (AnimationEnd commonStates_one))
        \<and> startStateRef (ticks tss (useAnimation commonStates_one defaultConfig midFlight))
            = Some \<lparr>theta = pi / 2, phi = pi / 4\<rparr>)"
proof -
  have th: "theta commonStates_one \<noteq> theta commonStates_plusI"
    using half_pi_less_MathPI by (simp add: commonStates_one_def commonStates_plusI_def)
  then have ne: "theta commonStates_one \<noteq> theta commonStates_plusI
      \<or> phi commonStates_one \<noteq> phi commonStates_plusI"
    by simp
  have en: "enabled defaultConfig \<noteq> Some False"
    by (simp add: defaultConfig_def)
  have m: "startStateRef midFlight = Some commonStates_plus"
    "currentState midFlight = Some \<lparr>theta = pi / 2, phi = pi / 4\<rparr>"
    "events midFlight = [AnimationStart]"
    unfolding midFlight_eq by simp_all
  show ?thesis
    using C4_supersede[OF midFlight_inFlight ne en] midFlight_inFlight th en m
    by simp
qed

end
